theory Spec2Isabelle
  imports Complex_Main "HOL-Library.AList"
begin

section \<open>Python values and exceptions\<close>

text \<open>
  The exceptions the modelled code can raise. In Python, \<^verbatim>\<open>UnicodeEncodeError\<close> and
  passlib's \<^verbatim>\<open>UnknownHashError\<close> are subclasses of \<^verbatim>\<open>ValueError\<close>; pydantic turns a
  \<^verbatim>\<open>ValueError\<close> raised inside a validator into a \<^verbatim>\<open>ValidationError\<close>.
  \<^verbatim>\<open>HTTPException\<close> carries its status code and its detail message.
\<close>

datatype error =
    ValueError
  | UnicodeEncodeError
  | UnknownHashError
  | ValidationError
  | HTTPException nat string

text \<open>
  A Python \<^verbatim>\<open>str\<close> that holds user text is a sequence of code points; \<^verbatim>\<open>len\<close> counts
  code points. Code points are natural numbers below \<open>0x110000\<close>. A character proper
  (a Unicode scalar value) is a code point outside the surrogate range.
\<close>

type_synonym pystr = "nat list"

definition is_scalar :: "nat \<Rightarrow> bool" where
  "is_scalar c \<longleftrightarrow> c < 0xD800 \<or> (0xE000 \<le> c \<and> c < 0x110000)"

text \<open>
  \<^verbatim>\<open>str.encode('utf-8')\<close>: one to four bytes per code point; a surrogate cannot be
  encoded and raises \<^verbatim>\<open>UnicodeEncodeError\<close>.
\<close>

definition utf8_encode_cp :: "nat \<Rightarrow> error + nat list" where
  "utf8_encode_cp c =
     (if c < 0x80 then Inr [c]
      else if c < 0x800 then Inr [0xC0 + c div 64, 0x80 + c mod 64]
      else if 0xD800 \<le> c \<and> c < 0xE000 then Inl UnicodeEncodeError
      else if c < 0x10000 then
        Inr [0xE0 + c div 4096, 0x80 + (c div 64) mod 64, 0x80 + c mod 64]
      else if c < 0x110000 then
        Inr [0xF0 + c div 262144, 0x80 + (c div 4096) mod 64,
             0x80 + (c div 64) mod 64, 0x80 + c mod 64]
      else Inl UnicodeEncodeError)"

fun encode_utf8 :: "pystr \<Rightarrow> error + nat list" where
  "encode_utf8 [] = Inr []"
| "encode_utf8 (c # cs) =
     (case utf8_encode_cp c of
        Inl e \<Rightarrow> Inl e
      | Inr bs \<Rightarrow> (case encode_utf8 cs of Inl e \<Rightarrow> Inl e | Inr r \<Rightarrow> Inr (bs @ r)))"

text \<open>
  \<^verbatim>\<open>str.isspace\<close> on one code point, and \<^verbatim>\<open>str.strip()\<close> with no argument, which
  removes leading and trailing whitespace.
\<close>

definition isspace :: "nat \<Rightarrow> bool" where
  "isspace c \<longleftrightarrow>
     (0x09 \<le> c \<and> c \<le> 0x0D) \<or> (0x1C \<le> c \<and> c \<le> 0x20) \<or> c = 0x85 \<or> c = 0xA0 \<or>
     c = 0x1680 \<or> (0x2000 \<le> c \<and> c \<le> 0x200A) \<or> c = 0x2028 \<or> c = 0x2029 \<or>
     c = 0x202F \<or> c = 0x205F \<or> c = 0x3000"

definition strip :: "pystr \<Rightarrow> pystr" where
  "strip v = rev (dropWhile isspace (rev (dropWhile isspace v)))"

section \<open>Post schemas (schemas/post.py)\<close>

text \<open>
  \<^verbatim>\<open>PostBase.text\<close> is declared with \<^verbatim>\<open>Field(..., min_length=1, max_length=10000)\<close>:
  the length constraints are checked on the value as received.
\<close>

definition PostBase_text :: "pystr \<Rightarrow> error + pystr" where
  "PostBase_text v =
     (if length v < 1 then Inl ValidationError
      else if length v > 10000 then Inl ValidationError
      else Inr v)"

text \<open>
  \<^verbatim>\<open>PostCreate.validate_text_size\<close>: the validator body. It raises \<^verbatim>\<open>ValueError\<close> when
  the encoded text is larger than 1MB and otherwise returns the stripped text.
\<close>

definition validate_text_size :: "pystr \<Rightarrow> error + pystr" where
  "validate_text_size v =
     (case encode_utf8 v of
        Inl e \<Rightarrow> Inl e
      | Inr bs \<Rightarrow>
          (let text_size = length bs in
           if text_size > 1024 * 1024 then Inl ValueError
           else Inr (strip v)))"

text \<open>
  Building a \<^verbatim>\<open>PostCreate\<close> from a request body: the field constraints first, then the
  validator on the value that passed them. Any failure is a validation error of the
  request; on success the model holds the validator's return value as its \<^verbatim>\<open>text\<close>.
\<close>

record PostCreate =
  PostCreate_text :: pystr

definition PostCreate_validate :: "pystr \<Rightarrow> error + PostCreate" where
  "PostCreate_validate v =
     (case PostBase_text v of
        Inl e \<Rightarrow> Inl e
      | Inr v' \<Rightarrow>
          (case validate_text_size v' of
             Inl e \<Rightarrow> Inl ValidationError
           | Inr t \<Rightarrow> Inr \<lparr>PostCreate_text = t\<rparr>))"

section \<open>Short strings, \<^verbatim>\<open>str(int)\<close> and \<^verbatim>\<open>int(str)\<close>\<close>

text \<open>
  Emails, passwords, hashes, keys and claim names are only compared, concatenated or
  parsed as numbers; they are modelled as \<^typ>\<open>string\<close>, a \<^typ>\<open>char\<close> standing for the
  code point of the same number (0 to 255).

  \<^verbatim>\<open>str(n)\<close> for an integer is its decimal numeral, with a leading minus sign for a
  negative number.
\<close>

definition digit_char :: "nat \<Rightarrow> char" where
  "digit_char d = ''0123456789'' ! d"

fun digits :: "nat \<Rightarrow> string" where
  "digits n = (if n < 10 then [digit_char n] else digits (n div 10) @ [digit_char (n mod 10)])"

declare digits.simps [simp del]

definition py_str :: "int \<Rightarrow> string" where
  "py_str i = (if i < 0 then CHR ''-'' # digits (nat (- i)) else digits (nat i))"

text \<open>
  \<^verbatim>\<open>int(s)\<close> for a string: surrounding whitespace is ignored, then an optional sign,
  then decimal digits, where single underscores may separate digits. Anything else
  raises \<^verbatim>\<open>ValueError\<close>.
\<close>

definition is_digit :: "char \<Rightarrow> bool" where
  "is_digit c \<longleftrightarrow> c \<in> set ''0123456789''"

definition digit_val :: "char \<Rightarrow> nat" where
  "digit_val c = of_char c - 48"

fun parse_digits :: "nat \<Rightarrow> string \<Rightarrow> error + nat" where
  "parse_digits acc [] = Inr acc"
| "parse_digits acc [c] =
     (if is_digit c then Inr (acc * 10 + digit_val c) else Inl ValueError)"
| "parse_digits acc (c # d # cs) =
     (if is_digit c then parse_digits (acc * 10 + digit_val c) (d # cs)
      else if c = CHR ''_'' \<and> is_digit d then parse_digits (acc * 10 + digit_val d) cs
      else Inl ValueError)"


definition parse_unsigned :: "string \<Rightarrow> error + nat" where
  "parse_unsigned s =
     (case s of
        [] \<Rightarrow> Inl ValueError
      | c # cs \<Rightarrow> if is_digit c then parse_digits (digit_val c) cs else Inl ValueError)"

definition strip_str :: "string \<Rightarrow> string" where
  "strip_str s =
     rev (dropWhile (\<lambda>c. isspace (of_char c)) (rev (dropWhile (\<lambda>c. isspace (of_char c)) s)))"

definition py_int :: "string \<Rightarrow> error + int" where
  "py_int s =
     (case strip_str s of
        [] \<Rightarrow> Inl ValueError
      | c # cs \<Rightarrow>
          if c = CHR ''-'' then
            (case parse_unsigned cs of Inl e \<Rightarrow> Inl e | Inr n \<Rightarrow> Inr (- int n))
          else if c = CHR ''+'' then
            (case parse_unsigned cs of Inl e \<Rightarrow> Inl e | Inr n \<Rightarrow> Inr (int n))
          else
            (case parse_unsigned (c # cs) of Inl e \<Rightarrow> Inl e | Inr n \<Rightarrow> Inr (int n)))"

section \<open>Tables (models/post.py, models/user.py) and the database session\<close>

text \<open>
  Time stamps of the database and of \<^verbatim>\<open>datetime.utcnow()\<close> are whole seconds since the
  epoch. The session is the content of the two tables together with their
  auto-increment counters.
\<close>

record User =
  User_id :: int
  User_email :: string
  User_hashed_password :: string
  User_is_active :: bool
  User_created_at :: int
  User_updated_at :: int

record Post =
  Post_id :: int
  Post_text :: pystr
  Post_user_id :: int
  Post_created_at :: int
  Post_updated_at :: int

record Session =
  users :: "User list"
  posts :: "Post list"
  users_autoinc :: int
  posts_autoinc :: int

section \<open>User schemas (schemas/user.py)\<close>

record UserCreate =
  UserCreate_email :: string
  UserCreate_password :: string

record UserLogin =
  UserLogin_email :: string
  UserLogin_password :: string

section \<open>User repository (repositories/user_repository.py)\<close>

definition UserRepository_get_by_email :: "Session \<Rightarrow> string \<Rightarrow> User option" where
  "UserRepository_get_by_email db email = find (\<lambda>u. User_email u = email) (users db)"

definition UserRepository_get_by_id :: "Session \<Rightarrow> int \<Rightarrow> User option" where
  "UserRepository_get_by_id db user_id = find (\<lambda>u. User_id u = user_id) (users db)"

text \<open>
  \<^verbatim>\<open>UserRepository.create\<close>: the insert violates the unique constraint on
  \<^verbatim>\<open>users.email\<close> exactly when a row with that email exists; then the commit raises
  \<^verbatim>\<open>IntegrityError\<close>, the session is rolled back and the result is \<^verbatim>\<open>None\<close>.
  New rows are active by column default.
\<close>

definition UserRepository_create ::
  "int \<Rightarrow> Session \<Rightarrow> UserCreate \<Rightarrow> string \<Rightarrow> User option \<times> Session" where
  "UserRepository_create now db user_data hashed_password =
     (if \<exists>u \<in> set (users db). User_email u = UserCreate_email user_data then (None, db)
      else
        (let db_user = \<lparr>User_id = users_autoinc db,
                        User_email = UserCreate_email user_data,
                        User_hashed_password = hashed_password,
                        User_is_active = True,
                        User_created_at = now,
                        User_updated_at = now\<rparr>
         in (Some db_user,
             db\<lparr>users := users db @ [db_user], users_autoinc := users_autoinc db + 1\<rparr>)))"

definition UserRepository_is_active :: "User option \<Rightarrow> bool" where
  "UserRepository_is_active user = (case user of None \<Rightarrow> False | Some u \<Rightarrow> User_is_active u)"

section \<open>Post repository (repositories/post_repository.py)\<close>

text \<open>
  The flag \<open>commit_ok\<close> says whether the commit of this call goes through; when it
  does not, \<^verbatim>\<open>SQLAlchemyError\<close> is caught, the session is rolled back and the call
  returns \<^verbatim>\<open>None\<close> (or \<^verbatim>\<open>False\<close>).
\<close>

definition PostRepository_create ::
  "bool \<Rightarrow> int \<Rightarrow> Session \<Rightarrow> PostCreate \<Rightarrow> int \<Rightarrow> Post option \<times> Session" where
  "PostRepository_create commit_ok now db post_data user_id =
     (if commit_ok then
        (let db_post = \<lparr>Post_id = posts_autoinc db,
                        Post_text = PostCreate_text post_data,
                        Post_user_id = user_id,
                        Post_created_at = now,
                        Post_updated_at = now\<rparr>
         in (Some db_post,
             db\<lparr>posts := posts db @ [db_post], posts_autoinc := posts_autoinc db + 1\<rparr>))
      else (None, db))"

definition PostRepository_get_by_id :: "Session \<Rightarrow> int \<Rightarrow> Post option" where
  "PostRepository_get_by_id db post_id = find (\<lambda>p. Post_id p = post_id) (posts db)"

text \<open>
  \<^verbatim>\<open>order_by(Post.created_at.desc())\<close>: newest first; rows with equal time stamps stay
  in table order (the database leaves their order open).
\<close>

definition PostRepository_get_user_posts :: "Session \<Rightarrow> int \<Rightarrow> Post list" where
  "PostRepository_get_user_posts db user_id =
     sort_key (\<lambda>p. - Post_created_at p) (filter (\<lambda>p. Post_user_id p = user_id) (posts db))"

definition PostRepository_delete :: "bool \<Rightarrow> Session \<Rightarrow> Post \<Rightarrow> bool \<times> Session" where
  "PostRepository_delete commit_ok db post =
     (if commit_ok then
        (True, db\<lparr>posts := filter (\<lambda>p. Post_id p \<noteq> Post_id post) (posts db)\<rparr>)
      else (False, db))"

definition PostRepository_is_owner :: "Post option \<Rightarrow> int \<Rightarrow> bool" where
  "PostRepository_is_owner post user_id =
     (case post of None \<Rightarrow> False | Some p \<Rightarrow> Post_user_id p = user_id)"

section \<open>Response schemas (schemas/post.py, schemas/user.py)\<close>

record PostResponse =
  PostResponse_postID :: int
  PostResponse_text :: pystr
  PostResponse_user_id :: int
  PostResponse_created_at :: int
  PostResponse_updated_at :: int

text \<open>
  \<^verbatim>\<open>PostResponse\<close> inherits the \<^verbatim>\<open>text\<close> field of \<^verbatim>\<open>PostBase\<close> with its length
  constraints, so \<^verbatim>\<open>PostResponse.from_orm\<close> validates the stored text against them.
\<close>

definition PostResponse_from_orm :: "Post \<Rightarrow> error + PostResponse" where
  "PostResponse_from_orm post =
     (case PostBase_text (Post_text post) of
        Inl e \<Rightarrow> Inl e
      | Inr t \<Rightarrow> Inr \<lparr>PostResponse_postID = Post_id post,
                      PostResponse_text = t,
                      PostResponse_user_id = Post_user_id post,
                      PostResponse_created_at = Post_created_at post,
                      PostResponse_updated_at = Post_updated_at post\<rparr>)"

text \<open>The list comprehension \<^verbatim>\<open>[PostResponse.from_orm(post) for post in posts]\<close>.\<close>

fun from_orm_all :: "Post list \<Rightarrow> error + PostResponse list" where
  "from_orm_all [] = Inr []"
| "from_orm_all (post # rest) =
     (case PostResponse_from_orm post of
        Inl e \<Rightarrow> Inl e
      | Inr r \<Rightarrow> (case from_orm_all rest of Inl e \<Rightarrow> Inl e | Inr rs \<Rightarrow> Inr (r # rs)))"

record PostCreateResponse =
  PostCreateResponse_postID :: int
  PostCreateResponse_message :: string

record PostsListResponse =
  PostsListResponse_posts :: "PostResponse list"
  PostsListResponse_total :: int
  PostsListResponse_cached :: bool

record PostDeleteResponse =
  PostDeleteResponse_message :: string
  PostDeleteResponse_postID :: int

section \<open>Post service (services/post_service.py)\<close>

text \<open>
  A \<^verbatim>\<open>PostService\<close> object holds the session and its own \<^verbatim>\<open>_cache\<close> dictionary, from
  cache key to a pair of the cached responses and the time of caching.
  \<^verbatim>\<open>time.time()\<close> is a real number of seconds.
\<close>

record PostService =
  PostService_db :: Session
  PostService_cache :: "string \<rightharpoonup> PostResponse list \<times> real"

definition PostService_init :: "Session \<Rightarrow> PostService" where
  "PostService_init db = \<lparr>PostService_db = db, PostService_cache = Map.empty\<rparr>"

definition cache_key :: "int \<Rightarrow> string" where
  "cache_key user_id = ''user_posts_'' @ py_str user_id"

definition PostService_create_post ::
  "bool \<Rightarrow> int \<Rightarrow> PostService \<Rightarrow> PostCreate \<Rightarrow> int \<Rightarrow> PostCreateResponse option \<times> PostService" where
  "PostService_create_post commit_ok now self post_data user_id =
     (case PostRepository_create commit_ok now (PostService_db self) post_data user_id of
        (None, db') \<Rightarrow> (None, self\<lparr>PostService_db := db'\<rparr>)
      | (Some post, db') \<Rightarrow>
          (Some \<lparr>PostCreateResponse_postID = Post_id post,
                 PostCreateResponse_message = ''Post created successfully''\<rparr>,
           self\<lparr>PostService_db := db',
                PostService_cache := (PostService_cache self)(cache_key user_id := None)\<rparr>))"

text \<open>The fetch path of \<^verbatim>\<open>get_user_posts\<close>: read, convert, store in the cache.\<close>

definition fetch_user_posts ::
  "real \<Rightarrow> PostService \<Rightarrow> int \<Rightarrow> error + PostsListResponse \<times> PostService" where
  "fetch_user_posts current_time self user_id =
     (case from_orm_all (PostRepository_get_user_posts (PostService_db self) user_id) of
        Inl e \<Rightarrow> Inl e
      | Inr post_responses \<Rightarrow>
          Inr (\<lparr>PostsListResponse_posts = post_responses,
                PostsListResponse_total = int (length post_responses),
                PostsListResponse_cached = False\<rparr>,
               self\<lparr>PostService_cache :=
                 (PostService_cache self)(cache_key user_id \<mapsto> (post_responses, current_time))\<rparr>))"

definition PostService_get_user_posts ::
  "real \<Rightarrow> PostService \<Rightarrow> int \<Rightarrow> error + PostsListResponse \<times> PostService" where
  "PostService_get_user_posts current_time self user_id =
     (case PostService_cache self (cache_key user_id) of
        Some (cached_data, cache_time) \<Rightarrow>
          if current_time - cache_time < 300 then
            Inr (\<lparr>PostsListResponse_posts = cached_data,
                  PostsListResponse_total = int (length cached_data),
                  PostsListResponse_cached = True\<rparr>, self)
          else fetch_user_posts current_time self user_id
      | None \<Rightarrow> fetch_user_posts current_time self user_id)"

definition PostService_delete_post ::
  "bool \<Rightarrow> PostService \<Rightarrow> int \<Rightarrow> int \<Rightarrow> PostDeleteResponse option \<times> PostService" where
  "PostService_delete_post commit_ok self post_id user_id =
     (case PostRepository_get_by_id (PostService_db self) post_id of
        None \<Rightarrow> (None, self)
      | Some post \<Rightarrow>
          if \<not> PostRepository_is_owner (Some post) user_id then (None, self)
          else
            (case PostRepository_delete commit_ok (PostService_db self) post of
               (False, db') \<Rightarrow> (None, self\<lparr>PostService_db := db'\<rparr>)
             | (True, db') \<Rightarrow>
                 (Some \<lparr>PostDeleteResponse_message = ''Post deleted successfully'',
                        PostDeleteResponse_postID = post_id\<rparr>,
                  self\<lparr>PostService_db := db',
                       PostService_cache := (PostService_cache self)(cache_key user_id := None)\<rparr>)))"

section \<open>Post controller (controllers/post_controller.py)\<close>

text \<open>
  Every handler builds its own \<^verbatim>\<open>PostService(db)\<close>; what outlives the request is the
  session. The handlers take the user that the authentication dependency resolved.
\<close>

definition add_post ::
  "bool \<Rightarrow> int \<Rightarrow> Session \<Rightarrow> PostCreate \<Rightarrow> User \<Rightarrow> (error + PostCreateResponse) \<times> Session" where
  "add_post commit_ok now db post_data current_user =
     (let post_service = PostService_init db in
      case PostService_create_post commit_ok now post_service post_data (User_id current_user) of
        (None, s') \<Rightarrow> (Inl (HTTPException 400 ''Failed to create post''), PostService_db s')
      | (Some result, s') \<Rightarrow> (Inr result, PostService_db s'))"

definition get_posts :: "real \<Rightarrow> Session \<Rightarrow> User \<Rightarrow> error + PostsListResponse" where
  "get_posts current_time db current_user =
     (let post_service = PostService_init db in
      case PostService_get_user_posts current_time post_service (User_id current_user) of
        Inl e \<Rightarrow> Inl e
      | Inr (result, s') \<Rightarrow> Inr result)"

definition delete_post ::
  "bool \<Rightarrow> Session \<Rightarrow> int \<Rightarrow> User \<Rightarrow> (error + PostDeleteResponse) \<times> Session" where
  "delete_post commit_ok db post_id current_user =
     (let post_service = PostService_init db in
      case PostService_delete_post commit_ok post_service post_id (User_id current_user) of
        (None, s') \<Rightarrow>
          (Inl (HTTPException 404 ''Post not found or you don't have permission to delete it''),
           PostService_db s')
      | (Some result, s') \<Rightarrow> (Inr result, PostService_db s'))"

section \<open>Settings (config.py)\<close>

definition SECRET_KEY :: string where
  "SECRET_KEY = ''your-secret-key-change-in-production''"

definition ALGORITHM :: string where
  "ALGORITHM = ''HS256''"

definition ACCESS_TOKEN_EXPIRE_MINUTES :: int where
  "ACCESS_TOKEN_EXPIRE_MINUTES = 30"

section \<open>The password hashing context (passlib)\<close>

text \<open>
  \<^verbatim>\<open>CryptContext(schemes=["bcrypt"])\<close> is library code. The bcrypt handler itself is a
  parameter: a hashing function, which may reject a password, and a verification
  function for hashes in bcrypt format, which may raise on a damaged one. What the
  context does on its own is kept: \<^verbatim>\<open>verify\<close> first identifies the scheme of the hash
  by its prefix and raises \<^verbatim>\<open>UnknownHashError\<close> when no configured scheme claims it.
\<close>

record CryptContext =
  bcrypt_hash :: "string \<Rightarrow> error + string"
  bcrypt_verify :: "string \<Rightarrow> string \<Rightarrow> error + bool"

definition bcrypt_identify :: "string \<Rightarrow> bool" where
  "bcrypt_identify hash \<longleftrightarrow>
     list_ex (\<lambda>ident. take (length ident) hash = ident)
       [''$2$'', ''$2a$'', ''$2x$'', ''$2y$'', ''$2b$'']"

definition CryptContext_verify :: "CryptContext \<Rightarrow> string \<Rightarrow> string \<Rightarrow> error + bool" where
  "CryptContext_verify ctx secret hash =
     (if bcrypt_identify hash then bcrypt_verify ctx secret hash else Inl UnknownHashError)"

definition CryptContext_hash :: "CryptContext \<Rightarrow> string \<Rightarrow> error + string" where
  "CryptContext_hash ctx secret = bcrypt_hash ctx secret"

section \<open>Signed tokens (python-jose)\<close>

text \<open>
  \<^verbatim>\<open>jwt.encode\<close> and \<^verbatim>\<open>jwt.decode\<close> are library code, modelled symbolically: a token
  is either the compact serialisation of a claim set under an algorithm name and a
  signing key, or a string that does not parse as one. A signature verifies exactly
  under the key that made it. A \<^verbatim>\<open>datetime\<close> under \<^verbatim>\<open>exp\<close> is stored as its number of
  seconds. \<^verbatim>\<open>jwt.decode\<close> rejects (raises \<^verbatim>\<open>JWTError\<close>, here \<open>None\<close>) a string that
  does not parse, an algorithm outside the allowed list, a signature under another
  key, an \<^verbatim>\<open>exp\<close> that is not a number or lies before the current second, and a \<^verbatim>\<open>sub\<close>
  that is not a string.
\<close>

datatype json = JStr string | JInt int

type_synonym claims = "(string \<times> json) list"

datatype token = JWS string string claims | NotJWS string

definition jwt_encode :: "claims \<Rightarrow> string \<Rightarrow> string \<Rightarrow> token" where
  "jwt_encode claims key algorithm = JWS algorithm key claims"

definition validate_exp :: "int \<Rightarrow> claims \<Rightarrow> bool" where
  "validate_exp now claims =
     (case map_of claims ''exp'' of
        None \<Rightarrow> True
      | Some (JInt expiry) \<Rightarrow> \<not> expiry < now
      | Some (JStr s) \<Rightarrow> (case py_int s of Inl e \<Rightarrow> False | Inr expiry \<Rightarrow> \<not> expiry < now))"

definition validate_sub :: "claims \<Rightarrow> bool" where
  "validate_sub claims =
     (case map_of claims ''sub'' of
        None \<Rightarrow> True
      | Some (JStr s) \<Rightarrow> True
      | Some (JInt n) \<Rightarrow> False)"

definition jwt_decode :: "int \<Rightarrow> token \<Rightarrow> string \<Rightarrow> string list \<Rightarrow> claims option" where
  "jwt_decode now tok key algorithms =
     (case tok of
        NotJWS s \<Rightarrow> None
      | JWS alg k claims \<Rightarrow>
          if alg \<notin> set algorithms then None
          else if k \<noteq> key then None
          else if \<not> validate_exp now claims then None
          else if \<not> validate_sub claims then None
          else Some claims)"

section \<open>Authentication service (services/auth_service.py)\<close>

record TokenResponse =
  TokenResponse_token :: token
  TokenResponse_token_type :: string

definition AuthService_verify_password :: "CryptContext \<Rightarrow> string \<Rightarrow> string \<Rightarrow> error + bool" where
  "AuthService_verify_password pwd_context plain_password hashed_password =
     CryptContext_verify pwd_context plain_password hashed_password"

definition AuthService_get_password_hash :: "CryptContext \<Rightarrow> string \<Rightarrow> error + string" where
  "AuthService_get_password_hash pwd_context password = CryptContext_hash pwd_context password"

definition AuthService_create_access_token :: "int \<Rightarrow> claims \<Rightarrow> token" where
  "AuthService_create_access_token utcnow data =
     (let to_encode = data;
          expire = utcnow + 60 * ACCESS_TOKEN_EXPIRE_MINUTES;
          to_encode = AList.update ''exp'' (JInt expire) to_encode
      in jwt_encode to_encode SECRET_KEY ALGORITHM)"

definition AuthService_verify_token :: "int \<Rightarrow> token \<Rightarrow> claims option" where
  "AuthService_verify_token utcnow tok = jwt_decode utcnow tok SECRET_KEY [ALGORITHM]"

definition token_data :: "User \<Rightarrow> claims" where
  "token_data user = [(''sub'', JStr (py_str (User_id user))), (''email'', JStr (User_email user))]"

definition AuthService_signup ::
  "CryptContext \<Rightarrow> int \<Rightarrow> Session \<Rightarrow> UserCreate \<Rightarrow> (error + TokenResponse option) \<times> Session" where
  "AuthService_signup pwd_context utcnow db user_data =
     (if UserRepository_get_by_email db (UserCreate_email user_data) \<noteq> None then (Inr None, db)
      else
        (case AuthService_get_password_hash pwd_context (UserCreate_password user_data) of
           Inl e \<Rightarrow> (Inl e, db)
         | Inr hashed_password \<Rightarrow>
             (case UserRepository_create utcnow db user_data hashed_password of
                (None, db') \<Rightarrow> (Inr None, db')
              | (Some user, db') \<Rightarrow>
                  (let access_token = AuthService_create_access_token utcnow (token_data user)
                   in (Inr (Some \<lparr>TokenResponse_token = access_token,
                                  TokenResponse_token_type = ''bearer''\<rparr>), db')))))"

definition AuthService_login ::
  "CryptContext \<Rightarrow> int \<Rightarrow> Session \<Rightarrow> UserLogin \<Rightarrow> error + TokenResponse option" where
  "AuthService_login pwd_context utcnow db login_data =
     (case UserRepository_get_by_email db (UserLogin_email login_data) of
        None \<Rightarrow> Inr None
      | Some user \<Rightarrow>
          if \<not> UserRepository_is_active (Some user) then Inr None
          else
            (case AuthService_verify_password pwd_context (UserLogin_password login_data)
                    (User_hashed_password user) of
               Inl e \<Rightarrow> Inl e
             | Inr ok \<Rightarrow>
                 if \<not> ok then Inr None
                 else
                   (let access_token = AuthService_create_access_token utcnow (token_data user)
                    in Inr (Some \<lparr>TokenResponse_token = access_token,
                                  TokenResponse_token_type = ''bearer''\<rparr>))))"

text \<open>
  Python truth of a claim value (\<^verbatim>\<open>not user_id\<close>) and \<^verbatim>\<open>int(user_id)\<close> on it.
\<close>

definition truthy :: "json \<Rightarrow> bool" where
  "truthy v = (case v of JStr s \<Rightarrow> s \<noteq> [] | JInt n \<Rightarrow> n \<noteq> 0)"

definition int_of_json :: "json \<Rightarrow> error + int" where
  "int_of_json v = (case v of JStr s \<Rightarrow> py_int s | JInt n \<Rightarrow> Inr n)"

definition AuthService_get_current_user :: "int \<Rightarrow> Session \<Rightarrow> token \<Rightarrow> error + User option" where
  "AuthService_get_current_user utcnow db tok =
     (case AuthService_verify_token utcnow tok of
        None \<Rightarrow> Inr None
      | Some payload \<Rightarrow>
          if payload = [] then Inr None
          else
            (case map_of payload ''sub'' of
               None \<Rightarrow> Inr None
             | Some user_id \<Rightarrow>
                 if \<not> truthy user_id then Inr None
                 else
                   (case int_of_json user_id of
                      Inl e \<Rightarrow> Inl e
                    | Inr n \<Rightarrow>
                        (let user = UserRepository_get_by_id db n in
                         if user = None \<or> \<not> UserRepository_is_active user then Inr None
                         else Inr user))))"

section \<open>Authentication dependency and controller\<close>

definition get_current_user :: "int \<Rightarrow> Session \<Rightarrow> token \<Rightarrow> error + User" where
  "get_current_user utcnow db credentials =
     (case AuthService_get_current_user utcnow db credentials of
        Inl e \<Rightarrow> Inl e
      | Inr None \<Rightarrow> Inl (HTTPException 401 ''Invalid or expired token'')
      | Inr (Some user) \<Rightarrow> Inr user)"

definition signup ::
  "CryptContext \<Rightarrow> int \<Rightarrow> Session \<Rightarrow> UserCreate \<Rightarrow> (error + TokenResponse) \<times> Session" where
  "signup pwd_context utcnow db user_data =
     (case AuthService_signup pwd_context utcnow db user_data of
        (Inl e, db') \<Rightarrow> (Inl e, db')
      | (Inr None, db') \<Rightarrow>
          (Inl (HTTPException 400 ''Email already registered or registration failed''), db')
      | (Inr (Some tok), db') \<Rightarrow> (Inr tok, db'))"

definition login ::
  "CryptContext \<Rightarrow> int \<Rightarrow> Session \<Rightarrow> UserLogin \<Rightarrow> error + TokenResponse" where
  "login pwd_context utcnow db login_data =
     (case AuthService_login pwd_context utcnow db login_data of
        Inl e \<Rightarrow> Inl e
      | Inr None \<Rightarrow> Inl (HTTPException 401 ''Invalid email or password'')
      | Inr (Some tok) \<Rightarrow> Inr tok)"

section \<open>Requests\<close>

text \<open>
  One request against the application: the routes of the two routers, with the bearer
  token of the protected ones. The environment of a request is the clock readings and
  whether its commit to the posts table goes through. A protected route resolves the
  user first, then validates the body, then runs the handler.
\<close>

datatype request =
    Signup UserCreate
  | Login UserLogin
  | AddPost token pystr
  | GetPosts token
  | DeletePost token int

datatype reply =
    TokenReply TokenResponse
  | CreatedReply PostCreateResponse
  | ListReply PostsListResponse
  | DeletedReply PostDeleteResponse

record Env =
  Env_utcnow :: int
  Env_time :: real
  Env_commit_ok :: bool

fun handle :: "CryptContext \<Rightarrow> Session \<Rightarrow> Env \<times> request \<Rightarrow> (error + reply) \<times> Session" where
  "handle ctx db (env, Signup user_data) =
     (case signup ctx (Env_utcnow env) db user_data of
        (Inl e, db') \<Rightarrow> (Inl e, db')
      | (Inr tok, db') \<Rightarrow> (Inr (TokenReply tok), db'))"
| "handle ctx db (env, Login login_data) =
     (case login ctx (Env_utcnow env) db login_data of
        Inl e \<Rightarrow> (Inl e, db)
      | Inr tok \<Rightarrow> (Inr (TokenReply tok), db))"
| "handle ctx db (env, AddPost credentials body) =
     (case get_current_user (Env_utcnow env) db credentials of
        Inl e \<Rightarrow> (Inl e, db)
      | Inr current_user \<Rightarrow>
          (case PostCreate_validate body of
             Inl e \<Rightarrow> (Inl e, db)
           | Inr post_data \<Rightarrow>
               (case add_post (Env_commit_ok env) (Env_utcnow env) db post_data current_user of
                  (Inl e, db') \<Rightarrow> (Inl e, db')
                | (Inr r, db') \<Rightarrow> (Inr (CreatedReply r), db'))))"
| "handle ctx db (env, GetPosts credentials) =
     (case get_current_user (Env_utcnow env) db credentials of
        Inl e \<Rightarrow> (Inl e, db)
      | Inr current_user \<Rightarrow>
          (case get_posts (Env_time env) db current_user of
             Inl e \<Rightarrow> (Inl e, db)
           | Inr r \<Rightarrow> (Inr (ListReply r), db)))"
| "handle ctx db (env, DeletePost credentials post_id) =
     (case get_current_user (Env_utcnow env) db credentials of
        Inl e \<Rightarrow> (Inl e, db)
      | Inr current_user \<Rightarrow>
          (case delete_post (Env_commit_ok env) db post_id current_user of
             (Inl e, db') \<Rightarrow> (Inl e, db')
           | (Inr r, db') \<Rightarrow> (Inr (DeletedReply r), db')))"

text \<open>A run of requests: the session after the last one, and the replies in order.\<close>

fun run :: "CryptContext \<Rightarrow> Session \<Rightarrow> (Env \<times> request) list \<Rightarrow> (error + reply) list \<times> Session" where
  "run ctx db [] = ([], db)"
| "run ctx db (r # rs) =
     (case handle ctx db r of
        (out, db') \<Rightarrow> (case run ctx db' rs of (outs, db'') \<Rightarrow> (out # outs, db'')))"

section \<open>Example data\<close>

text \<open>Two accounts and one post of the first, used to run the definitions on.\<close>

definition alice :: User where
  "alice = \<lparr>User_id = 1, User_email = ''a@x.com'', User_hashed_password = ''$2b$12$abc'',
             User_is_active = True, User_created_at = 0, User_updated_at = 0\<rparr>"

definition bob :: User where
  "bob = \<lparr>User_id = 2, User_email = ''b@x.com'', User_hashed_password = ''$2b$12$def'',
           User_is_active = True, User_created_at = 0, User_updated_at = 0\<rparr>"

definition hello :: Post where
  "hello = \<lparr>Post_id = 1, Post_text = [104, 101, 108, 108, 111], Post_user_id = 1,
             Post_created_at = 10, Post_updated_at = 10\<rparr>"

definition example_db :: Session where
  "example_db = \<lparr>users = [alice, bob], posts = [hello], users_autoinc = 3, posts_autoinc = 2\<rparr>"

definition hello_response :: PostResponse where
  "hello_response = \<lparr>PostResponse_postID = 1, PostResponse_text = [104, 101, 108, 108, 111],
      PostResponse_user_id = 1, PostResponse_created_at = 10, PostResponse_updated_at = 10\<rparr>"

text \<open>
  A stand-in for the bcrypt handler, a token for the first account, the environment of a
  request at a given second, and a second session with an active and an inactive
  account.
\<close>

definition example_context :: CryptContext where
  "example_context = \<lparr>bcrypt_hash = (\<lambda>p. Inr (''$2b$12$'' @ p)),
                       bcrypt_verify = (\<lambda>p h. Inr (h = ''$2b$12$'' @ p))\<rparr>"

definition alice_token :: token where
  "alice_token = JWS ''HS256'' ''your-secret-key-change-in-production''
      [(''sub'', JStr ''1''), (''email'', JStr ''a@x.com''), (''exp'', JInt 1800)]"

definition env_at :: "int \<Rightarrow> Env" where
  "env_at t = \<lparr>Env_utcnow = t, Env_time = of_int t, Env_commit_ok = True\<rparr>"




section \<open>Properties\<close>

subsection \<open>Encoding and stripping\<close>

lemma utf8_encode_cp_length: "utf8_encode_cp c = Inr bs \<Longrightarrow> length bs \<le> 4"
  by (auto simp: utf8_encode_cp_def split: if_splits)

lemma encode_utf8_length: "encode_utf8 v = Inr bs \<Longrightarrow> length bs \<le> 4 * length v"
proof (induction v arbitrary: bs)
  case Nil
  then show ?case by simp
next
  case (Cons c cs)
  then show ?case
    by (auto split: sum.splits dest!: utf8_encode_cp_length)
qed

lemma utf8_encode_cp_scalar: "is_scalar c \<Longrightarrow> \<exists>bs. utf8_encode_cp c = Inr bs"
  by (auto simp: utf8_encode_cp_def is_scalar_def)

lemma encode_utf8_scalar: "list_all is_scalar v \<Longrightarrow> \<exists>bs. encode_utf8 v = Inr bs"
proof (induction v)
  case Nil
  then show ?case by simp
next
  case (Cons c cs)
  then obtain r where "encode_utf8 cs = Inr r" by auto
  moreover obtain bs where "utf8_encode_cp c = Inr bs"
    using Cons.prems utf8_encode_cp_scalar by auto
  ultimately show ?case by simp
qed

lemma isspace_scalar: "isspace c \<Longrightarrow> is_scalar c"
  by (auto simp: isspace_def is_scalar_def)

lemma strip_whitespace: "list_all isspace v \<Longrightarrow> strip v = []"
  by (auto simp: strip_def list_all_iff dest: set_dropWhileD)

lemma validate_text_size_accepts:
  assumes "length v \<le> 10000" and "list_all is_scalar v"
  shows "validate_text_size v = Inr (strip v)"
proof -
  obtain bs where bs: "encode_utf8 v = Inr bs"
    using assms(2) encode_utf8_scalar by blast
  then have "length bs \<le> 4 * length v" by (rule encode_utf8_length)
  with assms(1) have "length bs \<le> 1024 * 1024" by simp
  with bs show ?thesis by (simp add: validate_text_size_def)
qed

lemma PostCreate_validate_accepts:
  assumes "1 \<le> length v" and "length v \<le> 10000" and "list_all is_scalar v"
  shows "PostCreate_validate v = Inr \<lparr>PostCreate_text = strip v\<rparr>"
  using assms validate_text_size_accepts [of v]
  by (cases v) (simp_all add: PostCreate_validate_def PostBase_text_def)

lemma PostCreate_validate_accepted:
  assumes "PostCreate_validate v = Inr p"
  shows "1 \<le> length v \<and> length v \<le> 10000 \<and> PostCreate_text p = strip v \<and>
         (\<exists>bs. encode_utf8 v = Inr bs \<and> length bs \<le> 40000)"
proof -
  from assms have len: "1 \<le> length v" "length v \<le> 10000"
    by (cases v; auto simp: PostCreate_validate_def PostBase_text_def split: if_splits)+
  from len have "PostBase_text v = Inr v"
    by (cases v) (simp_all add: PostBase_text_def)
  with assms obtain t where t: "validate_text_size v = Inr t" "p = \<lparr>PostCreate_text = t\<rparr>"
    by (auto simp: PostCreate_validate_def split: sum.splits)
  then obtain bs where bs: "encode_utf8 v = Inr bs" "t = strip v"
    by (auto simp: validate_text_size_def Let_def split: sum.splits if_splits)
  from bs(1) have "length bs \<le> 4 * length v" by (rule encode_utf8_length)
  with len have "length bs \<le> 40000" by simp
  with len t bs show ?thesis by simp
qed

subsection \<open>Post text validation\<close>

text \<open>
  Claim C8. Post text validation accepts every text of exactly 10,000 characters
  (Unicode scalar values), rejects every text of 10,001 characters and rejects the
  empty string; and whenever it accepts a text, the UTF-8 encoding of that text exists
  and has at most 1,048,576 bytes.
\<close>

theorem post_text_boundary:
  "(length v = 10000 \<and> list_all is_scalar v \<longrightarrow>
      PostCreate_validate v = Inr \<lparr>PostCreate_text = strip v\<rparr>) \<and>
   (length v = 10001 \<longrightarrow> PostCreate_validate v = Inl ValidationError) \<and>
   PostCreate_validate [] = Inl ValidationError \<and>
   (PostCreate_validate v = Inr p \<longrightarrow>
      (\<exists>bs. encode_utf8 v = Inr bs \<and> length bs \<le> 1048576))"
proof (intro conjI impI)
  assume "length v = 10000 \<and> list_all is_scalar v"
  then show "PostCreate_validate v = Inr \<lparr>PostCreate_text = strip v\<rparr>"
    by (simp add: PostCreate_validate_accepts)
next
  assume "length v = 10001"
  then show "PostCreate_validate v = Inl ValidationError"
    by (simp add: PostCreate_validate_def PostBase_text_def)
next
  show "PostCreate_validate [] = Inl ValidationError"
    by (simp add: PostCreate_validate_def PostBase_text_def)
next
  assume "PostCreate_validate v = Inr p"
  then obtain bs where "encode_utf8 v = Inr bs" "length bs \<le> 40000"
    using PostCreate_validate_accepted by blast
  then show "\<exists>bs. encode_utf8 v = Inr bs \<and> length bs \<le> 1048576" by auto
qed

theorem post_text_boundary_witness:
  "PostCreate_validate (replicate 10000 97) = Inr \<lparr>PostCreate_text = replicate 10000 97\<rparr> \<and>
   PostCreate_validate (replicate 10001 97) = Inl ValidationError \<and>
   (\<exists>bs. encode_utf8 [104, 105] = Inr bs \<and> length bs \<le> 1048576)"
proof -
  have a: "length (replicate 10000 (97::nat)) = 10000 \<and> list_all is_scalar (replicate 10000 97)"
    by (simp add: list_all_iff is_scalar_def)
  have s: "strip (replicate 10000 97) = replicate 10000 97"
    by (simp add: strip_def isspace_def dropWhile_replicate)
  have b: "length (replicate 10001 (97::nat)) = 10001" by simp
  have c: "PostCreate_validate [104, 105] = Inr \<lparr>PostCreate_text = [104, 105]\<rparr>"
    by (simp add: PostCreate_validate_def PostBase_text_def validate_text_size_def
        utf8_encode_cp_def strip_def isspace_def)
  from post_text_boundary [of "replicate 10000 97"] a s
  have 1: "PostCreate_validate (replicate 10000 97) = Inr \<lparr>PostCreate_text = replicate 10000 97\<rparr>"
    by simp
  from post_text_boundary [of "replicate 10001 97"] b
  have 2: "PostCreate_validate (replicate 10001 97) = Inl ValidationError" by blast
  from post_text_boundary [of "[104, 105]" "\<lparr>PostCreate_text = [104, 105]\<rparr>"] c
  have 3: "\<exists>bs. encode_utf8 [104, 105] = Inr bs \<and> length bs \<le> 1048576" by blast
  from 1 2 3 show ?thesis by blast
qed

text \<open>
  Claim C10, as stated: every text of at least one character that consists of
  whitespace only is accepted and stored as the empty text. The length bounds are
  checked on the untrimmed text, so a text of 10,001 spaces is rejected.
\<close>

theorem whitespace_only_rejected_when_too_long:
  "1 \<le> length (replicate 10001 (32::nat)) \<and> list_all isspace (replicate 10001 32) \<and>
   PostCreate_validate (replicate 10001 32) = Inl ValidationError"
  by (simp add: list_all_iff isspace_def PostCreate_validate_def PostBase_text_def)

text \<open>
  Claim C10, amended: the bounds are checked on the untrimmed text and the text is
  stripped afterwards, so every whitespace-only text of 1 to 10,000 characters is
  accepted, the validated model holds the empty text, and the row that the repository
  stores for it has the empty text.
\<close>

theorem whitespace_only_stored_empty:
  assumes "1 \<le> length v" and "length v \<le> 10000" and "list_all isspace v"
  shows "\<exists>post_data. PostCreate_validate v = Inr post_data \<and> PostCreate_text post_data = [] \<and>
         (\<exists>post db'. PostRepository_create True now db post_data user_id = (Some post, db') \<and>
            Post_text post = [] \<and> posts db' = posts db @ [post])"
proof -
  from assms(3) have "list_all is_scalar v"
    by (auto simp: list_all_iff intro: isspace_scalar)
  with assms(1,2) have "PostCreate_validate v = Inr \<lparr>PostCreate_text = strip v\<rparr>"
    by (rule PostCreate_validate_accepts)
  with assms(3) have "PostCreate_validate v = Inr \<lparr>PostCreate_text = []\<rparr>"
    by (simp add: strip_whitespace)
  then show ?thesis
    by (simp add: PostRepository_create_def Let_def)
qed

theorem whitespace_only_stored_empty_witness:
  "\<exists>post_data. PostCreate_validate [32, 9, 0x3000] = Inr post_data \<and> PostCreate_text post_data = [] \<and>
   (\<exists>post db'. PostRepository_create True 5 example_db post_data 1 = (Some post, db') \<and>
      Post_text post = [] \<and> posts db' = posts example_db @ [post])"
proof -
  have "1 \<le> length [32, 9, 0x3000 :: nat]" "length [32, 9, 0x3000 :: nat] \<le> 10000"
    "list_all isspace [32, 9, 0x3000]"
    by (simp_all add: isspace_def)
  from whitespace_only_stored_empty [OF this, of 5 example_db 1]
  show ?thesis .
qed

subsection \<open>Listing and deleting posts\<close>

text \<open>
  A stored post with the empty text, which a whitespace-only request body produces,
  fails the length constraint that \<^verbatim>\<open>PostResponse\<close> inherits: listing the posts of its
  owner then raises instead of returning.
\<close>

lemma from_orm_all_empty_text:
  "\<exists>p \<in> set ps. Post_text p = [] \<Longrightarrow> from_orm_all ps = Inl ValidationError"
proof (induction ps)
  case Nil
  then show ?case by simp
next
  case (Cons q qs)
  show ?case
  proof (cases "PostResponse_from_orm q")
    case (Inl e)
    then have "e = ValidationError"
      by (auto simp: PostResponse_from_orm_def PostBase_text_def split: if_splits)
    with Inl show ?thesis by simp
  next
    case (Inr r)
    then have "Post_text q \<noteq> []"
      by (auto simp: PostResponse_from_orm_def PostBase_text_def split: if_splits)
    with Cons.prems have "\<exists>p \<in> set qs. Post_text p = []" by auto
    then have "from_orm_all qs = Inl ValidationError" by (rule Cons.IH)
    with Inr show ?thesis by simp
  qed
qed

lemma stored_empty_text_breaks_listing:
  assumes "p \<in> set (posts db)" and "Post_text p = []" and "Post_user_id p = User_id u"
  shows "get_posts t db u = Inl ValidationError"
proof -
  from assms have "\<exists>q \<in> set (PostRepository_get_user_posts db (User_id u)). Post_text q = []"
    by (auto simp: PostRepository_get_user_posts_def)
  then have "from_orm_all (PostRepository_get_user_posts db (User_id u)) = Inl ValidationError"
    by (rule from_orm_all_empty_text)
  then show ?thesis
    by (simp add: get_posts_def PostService_get_user_posts_def PostService_init_def
        fetch_user_posts_def)
qed

lemma fetch_user_posts_total:
  "fetch_user_posts t s uid = Inr (r, s') \<Longrightarrow>
     PostsListResponse_total r = int (length (PostsListResponse_posts r)) \<and> \<not> PostsListResponse_cached r"
  by (auto simp: fetch_user_posts_def split: sum.splits)

text \<open>
  Claim C9. In every response that the list operation returns, on the cache-hit path
  and on the fetch path alike, the field \<open>total\<close> is the length of the field \<open>posts\<close> of
  that response.
\<close>

theorem list_total_is_length:
  "PostService_get_user_posts t s uid = Inr (r, s') \<Longrightarrow>
     PostsListResponse_total r = int (length (PostsListResponse_posts r))"
  by (auto simp: PostService_get_user_posts_def split: option.splits if_splits
      dest: fetch_user_posts_total)

lemma example_fetch:
  "PostService_get_user_posts 20 (PostService_init example_db) 1 =
     Inr (\<lparr>PostsListResponse_posts = [hello_response], PostsListResponse_total = 1,
            PostsListResponse_cached = False\<rparr>,
          \<lparr>PostService_db = example_db,
            PostService_cache = [cache_key 1 \<mapsto> ([hello_response], 20)]\<rparr>)"
  by (simp add: PostService_get_user_posts_def PostService_init_def fetch_user_posts_def
      PostRepository_get_user_posts_def example_db_def hello_def hello_response_def
      PostResponse_from_orm_def PostBase_text_def)

lemma example_hit:
  "PostService_get_user_posts 30
     \<lparr>PostService_db = example_db, PostService_cache = [cache_key 1 \<mapsto> ([hello_response], 20)]\<rparr> 1 =
     Inr (\<lparr>PostsListResponse_posts = [hello_response], PostsListResponse_total = 1,
            PostsListResponse_cached = True\<rparr>,
          \<lparr>PostService_db = example_db,
            PostService_cache = [cache_key 1 \<mapsto> ([hello_response], 20)]\<rparr>)"
  by (simp add: PostService_get_user_posts_def)

theorem list_total_is_length_witness:
  "(\<exists>r s'. PostService_get_user_posts 20 (PostService_init example_db) 1 = Inr (r, s') \<and>
      \<not> PostsListResponse_cached r \<and>
      PostsListResponse_total r = int (length (PostsListResponse_posts r))) \<and>
   (\<exists>r s'. PostService_get_user_posts 30
        \<lparr>PostService_db = example_db,
          PostService_cache = [cache_key 1 \<mapsto> ([hello_response], 20)]\<rparr> 1 = Inr (r, s') \<and>
      PostsListResponse_cached r \<and>
      PostsListResponse_total r = int (length (PostsListResponse_posts r)))"
  using list_total_is_length [OF example_fetch] list_total_is_length [OF example_hit]
    example_fetch example_hit
  by simp

lemma get_by_id_in_user_posts:
  assumes "PostRepository_get_by_id db post_id = Some post"
  shows "post \<in> set (PostRepository_get_user_posts db (Post_user_id post))"
proof -
  from assms have "post \<in> set (posts db)"
    by (auto simp: PostRepository_get_by_id_def find_Some_iff)
  then show ?thesis by (simp add: PostRepository_get_user_posts_def)
qed

text \<open>
  Claim C4. Deleting a post that does not exist and deleting a post that exists but
  belongs to another user give the same result: the service, whatever its cache
  holds, returns \<open>None\<close> and stays as it is, the handler raises the same 404, and the
  session is unchanged. In the second case the
  post is still found by its id and still listed among its owner's posts afterwards.
\<close>

theorem delete_absent_or_foreign_not_found:
  "(PostRepository_get_by_id db post_id = None \<longrightarrow>
      PostService_delete_post commit_ok
          \<lparr>PostService_db = db, PostService_cache = cache\<rparr> post_id (User_id requester) =
        (None, \<lparr>PostService_db = db, PostService_cache = cache\<rparr>) \<and>
      delete_post commit_ok db post_id requester =
        (Inl (HTTPException 404 ''Post not found or you don't have permission to delete it''), db)) \<and>
   (PostRepository_get_by_id db post_id = Some post \<and> Post_user_id post \<noteq> User_id requester \<longrightarrow>
      PostService_delete_post commit_ok
          \<lparr>PostService_db = db, PostService_cache = cache\<rparr> post_id (User_id requester) =
        (None, \<lparr>PostService_db = db, PostService_cache = cache\<rparr>) \<and>
      delete_post commit_ok db post_id requester =
        (Inl (HTTPException 404 ''Post not found or you don't have permission to delete it''), db) \<and>
      PostRepository_get_by_id (snd (delete_post commit_ok db post_id requester)) post_id = Some post \<and>
      post \<in> set (PostRepository_get_user_posts (snd (delete_post commit_ok db post_id requester))
                    (Post_user_id post)))"
proof (intro conjI impI)
  assume a: "PostRepository_get_by_id db post_id = None"
  then show "PostService_delete_post commit_ok
          \<lparr>PostService_db = db, PostService_cache = cache\<rparr> post_id (User_id requester) =
        (None, \<lparr>PostService_db = db, PostService_cache = cache\<rparr>)"
    by (simp add: PostService_delete_post_def)
  from a show "delete_post commit_ok db post_id requester =
        (Inl (HTTPException 404 ''Post not found or you don't have permission to delete it''), db)"
    by (simp add: delete_post_def PostService_delete_post_def PostService_init_def)
next
  assume b: "PostRepository_get_by_id db post_id = Some post \<and> Post_user_id post \<noteq> User_id requester"
  then show "PostService_delete_post commit_ok
          \<lparr>PostService_db = db, PostService_cache = cache\<rparr> post_id (User_id requester) =
        (None, \<lparr>PostService_db = db, PostService_cache = cache\<rparr>)"
    by (simp add: PostService_delete_post_def PostRepository_is_owner_def)
  from b show d: "delete_post commit_ok db post_id requester =
        (Inl (HTTPException 404 ''Post not found or you don't have permission to delete it''), db)"
    by (simp add: delete_post_def PostService_delete_post_def PostService_init_def
        PostRepository_is_owner_def)
  from b d show "PostRepository_get_by_id (snd (delete_post commit_ok db post_id requester)) post_id = Some post"
    by simp
  from b d show "post \<in> set (PostRepository_get_user_posts (snd (delete_post commit_ok db post_id requester))
                    (Post_user_id post))"
    using get_by_id_in_user_posts [of db post_id post] by simp
qed

theorem delete_absent_or_foreign_not_found_witness:
  "PostRepository_get_by_id example_db 7 = None \<and>
   delete_post True example_db 7 bob =
     (Inl (HTTPException 404 ''Post not found or you don't have permission to delete it''), example_db) \<and>
   PostRepository_get_by_id example_db 1 = Some hello \<and> Post_user_id hello \<noteq> User_id bob \<and>
   delete_post True example_db 1 bob =
     (Inl (HTTPException 404 ''Post not found or you don't have permission to delete it''), example_db) \<and>
   PostRepository_get_by_id (snd (delete_post True example_db 1 bob)) 1 = Some hello"
proof -
  have a: "PostRepository_get_by_id example_db 7 = None"
    by (simp add: PostRepository_get_by_id_def example_db_def hello_def)
  have b: "PostRepository_get_by_id example_db 1 = Some hello \<and> Post_user_id hello \<noteq> User_id bob"
    by (simp add: PostRepository_get_by_id_def example_db_def hello_def bob_def)
  from delete_absent_or_foreign_not_found
         [where db = example_db and post_id = 7 and commit_ok = True and requester = bob] a
       delete_absent_or_foreign_not_found
         [where db = example_db and post_id = 1 and commit_ok = True and requester = bob
            and post = hello] b
  show ?thesis by simp
qed

subsection \<open>The post cache across requests\<close>

lemma get_posts_never_cached:
  "get_posts t db u = Inr r \<Longrightarrow> \<not> PostsListResponse_cached r"
  by (auto simp: get_posts_def PostService_get_user_posts_def PostService_init_def
      split: sum.splits dest: fetch_user_posts_total)

lemma py_int_1: "py_int ''1'' = Inr 1"
  by (simp add: py_int_def strip_str_def isspace_def parse_unsigned_def is_digit_def digit_val_def)

lemma verify_alice_token:
  "t \<le> 1800 \<Longrightarrow> AuthService_verify_token t alice_token =
     Some [(''sub'', JStr ''1''), (''email'', JStr ''a@x.com''), (''exp'', JInt 1800)]"
  by (simp add: AuthService_verify_token_def jwt_decode_def alice_token_def SECRET_KEY_def
      ALGORITHM_def validate_exp_def validate_sub_def)

lemma resolve_alice: "t \<le> 1800 \<Longrightarrow> get_current_user t example_db alice_token = Inr alice"
  by (simp add: get_current_user_def AuthService_get_current_user_def verify_alice_token
      truthy_def int_of_json_def py_int_1 UserRepository_get_by_id_def example_db_def alice_def
      UserRepository_is_active_def)

lemma get_posts_example:
  "get_posts t example_db alice =
     Inr \<lparr>PostsListResponse_posts = [hello_response], PostsListResponse_total = 1,
          PostsListResponse_cached = False\<rparr>"
  by (simp add: get_posts_def PostService_get_user_posts_def PostService_init_def fetch_user_posts_def
      PostRepository_get_user_posts_def example_db_def hello_def hello_response_def alice_def
      PostResponse_from_orm_def PostBase_text_def)

text \<open>
  Claim C1 says that of two consecutive list requests of one owner within the cache
  lifetime, with no write between them, the second is answered from the cache. Run on
  the application, two list requests of the first account one second apart both come
  back with \<open>cached = False\<close>: each request builds a new service object, whose cache is
  empty.
\<close>

theorem consecutive_lists_not_cached:
  "fst (run example_context example_db
         [(env_at 20, GetPosts alice_token), (env_at 21, GetPosts alice_token)]) =
   [Inr (ListReply \<lparr>PostsListResponse_posts = [hello_response], PostsListResponse_total = 1,
          PostsListResponse_cached = False\<rparr>),
    Inr (ListReply \<lparr>PostsListResponse_posts = [hello_response], PostsListResponse_total = 1,
          PostsListResponse_cached = False\<rparr>)]"
  by (simp add: env_at_def resolve_alice get_posts_example)

text \<open>No list reply of any run of requests is ever marked as cached.\<close>

lemma handle_list_never_cached:
  "handle ctx db (env, req) = (Inr (ListReply r), db') \<Longrightarrow> \<not> PostsListResponse_cached r"
  by (cases req) (auto split: sum.splits prod.splits dest: get_posts_never_cached)

lemma run_list_never_cached:
  "Inr (ListReply r) \<in> set (fst (run ctx db reqs)) \<Longrightarrow> \<not> PostsListResponse_cached r"
proof (induction reqs arbitrary: db)
  case Nil
  then show ?case by simp
next
  case (Cons q reqs)
  obtain env req where q: "q = (env, req)" by (cases q)
  obtain out db' where h: "handle ctx db (env, req) = (out, db')" by (cases "handle ctx db (env, req)")
  obtain outs db'' where r: "run ctx db' reqs = (outs, db'')" by (cases "run ctx db' reqs")
  from Cons.prems q h r have "out = Inr (ListReply r) \<or> Inr (ListReply r) \<in> set (fst (run ctx db' reqs))"
    by auto
  then show ?case
  proof
    assume "out = Inr (ListReply r)"
    with h show ?thesis using handle_list_never_cached by blast
  next
    assume "Inr (ListReply r) \<in> set (fst (run ctx db' reqs))"
    then show ?thesis by (rule Cons.IH)
  qed
qed

text \<open>On one shared service object the cache would behave as the claim says.\<close>

lemma shared_service_second_list_cached:
  assumes "PostService_get_user_posts t1 s uid = Inr (r1, s1)"
    and "\<not> PostsListResponse_cached r1" and "t2 - t1 < 300"
  shows "PostService_get_user_posts t2 s1 uid = Inr (r1\<lparr>PostsListResponse_cached := True\<rparr>, s1)"
proof -
  from assms(1,2) have f: "fetch_user_posts t1 s uid = Inr (r1, s1)"
    by (auto simp: PostService_get_user_posts_def split: option.splits if_splits)
  then have "PostService_cache s1 (cache_key uid) = Some (PostsListResponse_posts r1, t1)"
    "PostsListResponse_total r1 = int (length (PostsListResponse_posts r1))"
    by (auto simp: fetch_user_posts_def split: sum.splits)
  with assms(3) show ?thesis
    by (simp add: PostService_get_user_posts_def)
qed

lemma shared_service_create_invalidates:
  assumes "PostService_create_post True now s post_data uid = (Some c, s1)"
  shows "PostService_cache s1 (cache_key uid) = None \<and>
         PostService_get_user_posts t s1 uid = fetch_user_posts t s1 uid"
  using assms
  by (auto simp: PostService_create_post_def PostRepository_create_def Let_def
      PostService_get_user_posts_def)

lemma shared_service_delete_invalidates:
  assumes "PostService_delete_post True s post_id uid = (Some d, s1)"
  shows "PostService_cache s1 (cache_key uid) = None \<and>
         PostService_get_user_posts t s1 uid = fetch_user_posts t s1 uid \<and>
         PostRepository_get_by_id (PostService_db s1) post_id = None"
proof -
  from assms obtain post where p: "PostRepository_get_by_id (PostService_db s) post_id = Some post"
    by (auto simp: PostService_delete_post_def split: option.splits)
  then have pid: "Post_id post = post_id"
    by (auto simp: PostRepository_get_by_id_def find_Some_iff)
  from assms p have s1: "s1 = s\<lparr>PostService_db :=
        (PostService_db s)\<lparr>posts := filter (\<lambda>p. Post_id p \<noteq> Post_id post) (posts (PostService_db s))\<rparr>,
      PostService_cache := (PostService_cache s)(cache_key uid := None)\<rparr>"
    by (auto simp: PostService_delete_post_def PostRepository_delete_def split: if_splits)
  have "PostRepository_get_by_id (PostService_db s1) post_id = None"
    by (simp add: s1 pid PostRepository_get_by_id_def find_None_iff)
  moreover have "PostService_cache s1 (cache_key uid) = None" by (simp add: s1)
  ultimately show ?thesis by (simp add: PostService_get_user_posts_def)
qed

subsection \<open>Signup\<close>

lemma get_by_email_None_iff:
  "UserRepository_get_by_email db e = None \<longleftrightarrow> \<not> (\<exists>u \<in> set (users db). User_email u = e)"
  by (auto simp: UserRepository_get_by_email_def find_None_iff)

lemma create_duplicate:
  "\<exists>u \<in> set (users db). User_email u = UserCreate_email ud \<Longrightarrow>
     UserRepository_create now db ud h = (None, db)"
  by (simp add: UserRepository_create_def)

lemma create_fresh:
  assumes "UserRepository_get_by_email db (UserCreate_email ud) = None"
  shows "\<exists>u. UserRepository_create now db ud h =
           (Some u, db\<lparr>users := users db @ [u], users_autoinc := users_autoinc db + 1\<rparr>) \<and>
         User_id u = users_autoinc db \<and> User_email u = UserCreate_email ud \<and>
         User_hashed_password u = h \<and> User_is_active u"
  using assms
  by (simp add: UserRepository_create_def get_by_email_None_iff Let_def)

lemma find_append_list:
  "find P (xs @ ys) = (case find P xs of None \<Rightarrow> find P ys | Some x \<Rightarrow> Some x)"
  by (induction xs) simp_all

lemma get_by_email_append:
  "UserRepository_get_by_email db e = None \<Longrightarrow> User_email u = e \<Longrightarrow>
     UserRepository_get_by_email (db\<lparr>users := users db @ [u], users_autoinc := n\<rparr>) e = Some u"
  by (simp add: UserRepository_get_by_email_def find_append_list)

lemma get_by_email_kept:
  "UserRepository_get_by_email db e = Some u \<Longrightarrow>
     UserRepository_get_by_email (db\<lparr>users := users db @ us, users_autoinc := n\<rparr>) e = Some u"
  by (simp add: UserRepository_get_by_email_def find_append_list)

lemma signup_registered:
  "UserRepository_get_by_email db (UserCreate_email ud) \<noteq> None \<Longrightarrow>
     AuthService_signup ctx now db ud = (Inr None, db)"
  by (simp add: AuthService_signup_def)

lemma signup_fresh:
  assumes "UserRepository_get_by_email db (UserCreate_email ud) = None"
    and "bcrypt_hash ctx (UserCreate_password ud) = Inr h"
  shows "\<exists>u. AuthService_signup ctx now db ud =
           (Inr (Some \<lparr>TokenResponse_token = AuthService_create_access_token now (token_data u),
                        TokenResponse_token_type = ''bearer''\<rparr>),
            db\<lparr>users := users db @ [u], users_autoinc := users_autoinc db + 1\<rparr>) \<and>
         User_id u = users_autoinc db \<and> User_email u = UserCreate_email ud \<and>
         User_hashed_password u = h \<and> User_is_active u"
proof -
  from create_fresh [OF assms(1), of now h] obtain u where
    u: "UserRepository_create now db ud h =
           (Some u, db\<lparr>users := users db @ [u], users_autoinc := users_autoinc db + 1\<rparr>)"
       "User_id u = users_autoinc db" "User_email u = UserCreate_email ud"
       "User_hashed_password u = h" "User_is_active u"
    by blast
  with assms show ?thesis
    by (intro exI [of _ u])
      (simp add: AuthService_signup_def AuthService_get_password_hash_def CryptContext_hash_def)
qed

lemma signup_effect:
  "AuthService_signup ctx now db ud = (out, db') \<Longrightarrow>
     (db' = db \<and> (\<forall>tok. out \<noteq> Inr (Some tok))) \<or>
     ((\<exists>tok. out = Inr (Some tok)) \<and>
      (\<exists>u. db' = db\<lparr>users := users db @ [u], users_autoinc := users_autoinc db + 1\<rparr>))"
  by (auto simp: AuthService_signup_def UserRepository_create_def Let_def
      split: if_splits sum.splits prod.splits option.splits)

lemma add_post_users: "users (snd (add_post commit_ok now db post_data u)) = users db"
  by (cases commit_ok)
    (simp_all add: add_post_def PostService_create_post_def PostService_init_def
      PostRepository_create_def Let_def)

lemma service_delete_post_users:
  "users (PostService_db (snd (PostService_delete_post commit_ok s post_id uid))) =
     users (PostService_db s)"
  by (cases commit_ok)
    (simp_all add: PostService_delete_post_def PostRepository_delete_def split: option.splits)

lemma delete_post_users: "users (snd (delete_post commit_ok db post_id u)) = users db"
proof -
  obtain r s' where d:
    "PostService_delete_post commit_ok (PostService_init db) post_id (User_id u) = (r, s')"
    by (cases "PostService_delete_post commit_ok (PostService_init db) post_id (User_id u)")
  with service_delete_post_users [of commit_ok "PostService_init db" post_id "User_id u"]
  have "users (PostService_db s') = users db" by (simp add: PostService_init_def)
  with d show ?thesis by (cases r) (simp_all add: delete_post_def)
qed

lemma handle_keeps_registered:
  assumes "UserRepository_get_by_email db e = Some u"
  shows "UserRepository_get_by_email (snd (handle ctx db q)) e = Some u"
proof -
  obtain env req where q: "q = (env, req)" by (cases q)
  show ?thesis
  proof (cases req)
    case (Signup ud)
    obtain out db' where s: "AuthService_signup ctx (Env_utcnow env) db ud = (out, db')"
      by (cases "AuthService_signup ctx (Env_utcnow env) db ud")
    from signup_effect [OF s] assms have "UserRepository_get_by_email db' e = Some u"
      by (auto simp: get_by_email_kept)
    with s q Signup show ?thesis
      by (auto simp: signup_def split: sum.splits option.splits)
  next
    case (Login ld)
    with q assms show ?thesis by (simp split: sum.splits)
  next
    case (AddPost tok body)
    have "users (snd (handle ctx db q)) = users db"
      using add_post_users [of "Env_commit_ok env" "Env_utcnow env" db]
      by (simp add: q AddPost split: sum.splits prod.splits) (metis snd_conv)
    with assms show ?thesis by (simp add: UserRepository_get_by_email_def)
  next
    case (GetPosts tok)
    with q assms show ?thesis by (simp split: sum.splits)
  next
    case (DeletePost tok pid)
    have "users (snd (handle ctx db q)) = users db"
      using delete_post_users [of "Env_commit_ok env" db pid]
      by (simp add: q DeletePost split: sum.splits prod.splits) (metis snd_conv)
    with assms show ?thesis by (simp add: UserRepository_get_by_email_def)
  qed
qed

lemma snd_run_Cons:
  "snd (run ctx db (q # reqs)) = snd (run ctx (snd (handle ctx db q)) reqs)"
  by (cases "handle ctx db q"; cases "run ctx (snd (handle ctx db q)) reqs") simp

lemma run_keeps_registered:
  "UserRepository_get_by_email db e = Some u \<Longrightarrow>
     UserRepository_get_by_email (snd (run ctx db reqs)) e = Some u"
proof (induction reqs arbitrary: db)
  case Nil
  then show ?case by simp
next
  case (Cons q reqs)
  from handle_keeps_registered [OF Cons.prems, of ctx q]
  have "UserRepository_get_by_email (snd (run ctx (snd (handle ctx db q)) reqs)) e = Some u"
    by (rule Cons.IH)
  then show ?case by (simp only: snd_run_Cons)
qed


text \<open>
  Claim C2. A signup with an email that is not registered, and a password the hasher
  accepts, succeeds and appends exactly one active account with that email. Once an
  email is registered, a signup with it after any run of requests returns \<open>None\<close>
  (the handler: 400) and leaves the session as it is. Every signup that does not
  succeed leaves the session unchanged, and so does an insert that hits the unique
  constraint.
\<close>

theorem signup_once_then_conflict:
  "(UserRepository_get_by_email db (UserCreate_email ud) = None \<and>
    bcrypt_hash ctx (UserCreate_password ud) = Inr h \<longrightarrow>
      (\<exists>tok u. AuthService_signup ctx now db ud =
           (Inr (Some tok), db\<lparr>users := users db @ [u], users_autoinc := users_autoinc db + 1\<rparr>) \<and>
         User_email u = UserCreate_email ud \<and> User_hashed_password u = h \<and> User_is_active u \<and>
         UserRepository_get_by_email (snd (AuthService_signup ctx now db ud)) (UserCreate_email ud) =
           Some u)) \<and>
   (UserRepository_get_by_email db (UserCreate_email ud) \<noteq> None \<longrightarrow>
      AuthService_signup ctx now (snd (run ctx db reqs)) ud = (Inr None, snd (run ctx db reqs)) \<and>
      signup ctx now (snd (run ctx db reqs)) ud =
        (Inl (HTTPException 400 ''Email already registered or registration failed''),
         snd (run ctx db reqs))) \<and>
   ((\<forall>tok. fst (AuthService_signup ctx now db ud) \<noteq> Inr (Some tok)) \<longrightarrow>
      snd (AuthService_signup ctx now db ud) = db) \<and>
   ((\<exists>u \<in> set (users db). User_email u = UserCreate_email ud) \<longrightarrow>
      UserRepository_create now db ud h = (None, db))"
proof (intro conjI impI)
  assume a: "UserRepository_get_by_email db (UserCreate_email ud) = None \<and>
    bcrypt_hash ctx (UserCreate_password ud) = Inr h"
  from signup_fresh [OF a [THEN conjunct1] a [THEN conjunct2], of now] obtain u where
    u: "AuthService_signup ctx now db ud =
           (Inr (Some \<lparr>TokenResponse_token = AuthService_create_access_token now (token_data u),
                        TokenResponse_token_type = ''bearer''\<rparr>),
            db\<lparr>users := users db @ [u], users_autoinc := users_autoinc db + 1\<rparr>)"
       "User_email u = UserCreate_email ud" "User_hashed_password u = h" "User_is_active u"
    by blast
  from a u(2) have "UserRepository_get_by_email
      (db\<lparr>users := users db @ [u], users_autoinc := users_autoinc db + 1\<rparr>) (UserCreate_email ud) = Some u"
    by (simp add: get_by_email_append)
  with u show "\<exists>tok u. AuthService_signup ctx now db ud =
           (Inr (Some tok), db\<lparr>users := users db @ [u], users_autoinc := users_autoinc db + 1\<rparr>) \<and>
         User_email u = UserCreate_email ud \<and> User_hashed_password u = h \<and> User_is_active u \<and>
         UserRepository_get_by_email (snd (AuthService_signup ctx now db ud)) (UserCreate_email ud) =
           Some u"
    by (intro exI [of _ u] exI [of _ "\<lparr>TokenResponse_token = AuthService_create_access_token now (token_data u),
                        TokenResponse_token_type = ''bearer''\<rparr>"]) simp
next
  assume "UserRepository_get_by_email db (UserCreate_email ud) \<noteq> None"
  then obtain u where "UserRepository_get_by_email db (UserCreate_email ud) = Some u" by blast
  then have r: "UserRepository_get_by_email (snd (run ctx db reqs)) (UserCreate_email ud) \<noteq> None"
    by (simp add: run_keeps_registered)
  then show s: "AuthService_signup ctx now (snd (run ctx db reqs)) ud = (Inr None, snd (run ctx db reqs))"
    by (rule signup_registered)
  then show "signup ctx now (snd (run ctx db reqs)) ud =
        (Inl (HTTPException 400 ''Email already registered or registration failed''),
         snd (run ctx db reqs))"
    by (simp add: signup_def)
next
  assume n: "\<forall>tok. fst (AuthService_signup ctx now db ud) \<noteq> Inr (Some tok)"
  obtain out db' where s: "AuthService_signup ctx now db ud = (out, db')"
    by (cases "AuthService_signup ctx now db ud")
  from signup_effect [OF s] n s show "snd (AuthService_signup ctx now db ud) = db" by auto
next
  assume "\<exists>u \<in> set (users db). User_email u = UserCreate_email ud"
  then show "UserRepository_create now db ud h = (None, db)" by (rule create_duplicate)
qed

theorem signup_once_then_conflict_witness:
  "(\<exists>tok u. AuthService_signup example_context 50 example_db
        \<lparr>UserCreate_email = ''c@x.com'', UserCreate_password = ''pass1234''\<rparr> =
        (Inr (Some tok),
         example_db\<lparr>users := users example_db @ [u], users_autoinc := users_autoinc example_db + 1\<rparr>) \<and>
      User_email u = ''c@x.com'' \<and> User_hashed_password u = ''$2b$12$pass1234'' \<and> User_is_active u) \<and>
   AuthService_signup example_context 60
       (snd (run example_context example_db [(env_at 20, GetPosts alice_token)]))
       \<lparr>UserCreate_email = ''a@x.com'', UserCreate_password = ''other5678''\<rparr> =
     (Inr None, snd (run example_context example_db [(env_at 20, GetPosts alice_token)])) \<and>
   UserRepository_create 50 example_db
       \<lparr>UserCreate_email = ''a@x.com'', UserCreate_password = ''other5678''\<rparr> ''h'' = (None, example_db)"
proof -
  let ?c = "\<lparr>UserCreate_email = ''c@x.com'', UserCreate_password = ''pass1234''\<rparr>"
  let ?a = "\<lparr>UserCreate_email = ''a@x.com'', UserCreate_password = ''other5678''\<rparr>"
  have fresh: "UserRepository_get_by_email example_db (UserCreate_email ?c) = None \<and>
      bcrypt_hash example_context (UserCreate_password ?c) = Inr ''$2b$12$pass1234''"
    by (simp add: UserRepository_get_by_email_def example_db_def alice_def bob_def example_context_def)
  have taken: "UserRepository_get_by_email example_db (UserCreate_email ?a) \<noteq> None"
    by (simp add: UserRepository_get_by_email_def example_db_def alice_def)
  have dup: "\<exists>u \<in> set (users example_db). User_email u = UserCreate_email ?a"
    by (simp add: example_db_def alice_def)
  from signup_once_then_conflict
         [where db = example_db and ud = ?c and ctx = example_context and now = 50
            and h = "''$2b$12$pass1234''"] fresh
  have 1: "\<exists>tok u. AuthService_signup example_context 50 example_db ?c =
        (Inr (Some tok),
         example_db\<lparr>users := users example_db @ [u], users_autoinc := users_autoinc example_db + 1\<rparr>) \<and>
      User_email u = ''c@x.com'' \<and> User_hashed_password u = ''$2b$12$pass1234'' \<and> User_is_active u"
    by auto
  from signup_once_then_conflict
         [where db = example_db and ud = ?a and ctx = example_context and now = 60
            and reqs = "[(env_at 20, GetPosts alice_token)]"] taken
  have 2: "AuthService_signup example_context 60
       (snd (run example_context example_db [(env_at 20, GetPosts alice_token)])) ?a =
     (Inr None, snd (run example_context example_db [(env_at 20, GetPosts alice_token)]))"
    by blast
  from signup_once_then_conflict
         [where db = example_db and ud = ?a and now = 50 and h = "''h''"] dup
  have 3: "UserRepository_create 50 example_db ?a ''h'' = (None, example_db)" by blast
  from 1 2 3 show ?thesis by blast
qed

subsection \<open>Login and password verification\<close>










subsection \<open>Decimal numerals\<close>

lemma digit_char_props:
  "d < 10 \<Longrightarrow> is_digit (digit_char d) \<and> digit_val (digit_char d) = d \<and>
     \<not> isspace (of_char (digit_char d)) \<and> digit_char d \<noteq> CHR ''-'' \<and> digit_char d \<noteq> CHR ''+''"
proof -
  assume "d < 10"
  then have "d \<in> {0, 1, 2, 3, 4, 5, 6, 7, 8, 9}" by auto
  then show ?thesis
    by (auto simp: digit_char_def is_digit_def digit_val_def isspace_def)
qed


lemma digits_all: "list_all is_digit (digits n) \<and> digits n \<noteq> []"
proof (induction n rule: digits.induct)
  case (1 n)
  show ?case
  proof (cases "n < 10")
    case True
    then show ?thesis by (simp add: digits.simps [of n] digit_char_props)
  next
    case False
    with 1 show ?thesis by (simp add: digits.simps [of n] digit_char_props)
  qed
qed










lemma py_str_not_empty: "py_str i \<noteq> []"
  using digits_all by (simp add: py_str_def)

subsection \<open>Tokens\<close>





subsection \<open>Identity resolution\<close>

text \<open>
  Claim C6 says that identity resolution never raises. A token that verifies under the
  signing key and whose subject is a string that is not a number makes
  \<^verbatim>\<open>int(user_id)\<close> raise \<^verbatim>\<open>ValueError\<close>; neither the service nor the dependency catches
  it.
\<close>

theorem resolve_raises_on_non_numeric_subject:
  "AuthService_verify_token 0
       (JWS ''HS256'' ''your-secret-key-change-in-production'' [(''sub'', JStr ''abc'')]) =
     Some [(''sub'', JStr ''abc'')] \<and>
   AuthService_get_current_user 0 example_db
       (JWS ''HS256'' ''your-secret-key-change-in-production'' [(''sub'', JStr ''abc'')]) =
     Inl ValueError \<and>
   get_current_user 0 example_db
       (JWS ''HS256'' ''your-secret-key-change-in-production'' [(''sub'', JStr ''abc'')]) =
     Inl ValueError"
proof -
  have v: "AuthService_verify_token 0
       (JWS ''HS256'' ''your-secret-key-change-in-production'' [(''sub'', JStr ''abc'')]) =
     Some [(''sub'', JStr ''abc'')]"
    by (simp add: AuthService_verify_token_def jwt_decode_def ALGORITHM_def SECRET_KEY_def
        validate_exp_def validate_sub_def)
  have i: "py_int ''abc'' = Inl ValueError"
    by (simp add: py_int_def strip_str_def isspace_def parse_unsigned_def is_digit_def)
  from v i show ?thesis
    by (simp add: get_current_user_def AuthService_get_current_user_def truthy_def int_of_json_def)
qed

text \<open>
  What does hold: a token that fails verification resolves to nobody; resolution raises
  exactly when the verified subject is a non-empty string that \<^verbatim>\<open>int\<close> rejects; an
  account that is returned is active and is the one stored under the subject's number;
  and the email claim plays no part.
\<close>

lemma resolve_unverified:
  "AuthService_verify_token now tok = None \<Longrightarrow> AuthService_get_current_user now db tok = Inr None"
  by (simp add: AuthService_get_current_user_def)

lemma verified_subject_is_string:
  "AuthService_verify_token now tok = Some payload \<Longrightarrow> map_of payload ''sub'' = Some v \<Longrightarrow>
     \<exists>s. v = JStr s"
  by (auto simp: AuthService_verify_token_def jwt_decode_def validate_sub_def
      split: token.splits if_splits json.splits)

lemma resolve_raises_iff:
  "AuthService_get_current_user now db tok = Inl e \<longleftrightarrow>
     (\<exists>payload s. AuthService_verify_token now tok = Some payload \<and>
        map_of payload ''sub'' = Some (JStr s) \<and> s \<noteq> [] \<and> py_int s = Inl e)"
proof (cases "AuthService_verify_token now tok")
  case None
  then show ?thesis by (simp add: AuthService_get_current_user_def)
next
  case (Some payload)
  show ?thesis
  proof (cases "map_of payload ''sub''")
    case None
    with Some show ?thesis by (simp add: AuthService_get_current_user_def)
  next
    case (Some v)
    with \<open>AuthService_verify_token now tok = Some payload\<close> obtain s where "v = JStr s"
      using verified_subject_is_string by blast
    moreover from Some have "payload \<noteq> []" by auto
    ultimately show ?thesis
      using Some \<open>AuthService_verify_token now tok = Some payload\<close>
      by (auto simp: AuthService_get_current_user_def truthy_def int_of_json_def Let_def
          split: sum.splits)
  qed
qed

lemma resolve_account:
  assumes "AuthService_get_current_user now db tok = Inr (Some u)"
  shows "\<exists>payload s. AuthService_verify_token now tok = Some payload \<and>
           map_of payload ''sub'' = Some (JStr s) \<and> py_int s = Inr (User_id u) \<and>
           UserRepository_get_by_id db (User_id u) = Some u \<and> User_is_active u"
proof -
  from assms obtain payload where p: "AuthService_verify_token now tok = Some payload"
    by (auto simp: AuthService_get_current_user_def split: option.splits)
  with assms obtain v where v: "map_of payload ''sub'' = Some v"
    by (auto simp: AuthService_get_current_user_def split: option.splits if_splits)
  with p obtain s where s: "v = JStr s" using verified_subject_is_string by blast
  from assms p v s obtain n where n: "py_int s = Inr n" "UserRepository_get_by_id db n = Some u"
    "User_is_active u"
    by (auto simp: AuthService_get_current_user_def int_of_json_def Let_def
        UserRepository_is_active_def split: if_splits sum.splits)
  from n(2) have "User_id u = n"
    by (auto simp: UserRepository_get_by_id_def find_Some_iff)
  with p v s n show ?thesis by auto
qed

lemma resolve_ignores_email:
  "AuthService_get_current_user now db (JWS alg k [(''sub'', sub), (''email'', e1), (''exp'', x)]) =
   AuthService_get_current_user now db (JWS alg k [(''sub'', sub), (''email'', e2), (''exp'', x)])"
  by (simp add: AuthService_get_current_user_def AuthService_verify_token_def jwt_decode_def
      validate_exp_def validate_sub_def)

end
